theory Spec2Isabelle
  imports Complex_Main
begin

section \<open>Conway's Game of Life (main.py): data model\<close>

text \<open>
  The module-level constants of main.py are taken as a configuration record, so that the
  grids of other sizes which the specification mentions can be stated. In the source
  \<^verbatim>\<open>ROWS, COLS = SCREEN_WIDTH // TILE_SIZE, SCREEN_HEIGHT // TILE_SIZE\<close> with
  \<^verbatim>\<open>SCREEN_WIDTH, SCREEN_HEIGHT = 1200, 1200\<close>, \<^verbatim>\<open>TILE_SIZE = 5\<close>,
  \<^verbatim>\<open>UPDATE_FREQ = 2\<close> and \<^verbatim>\<open>RANDOM_DENSITY = 0.5\<close>.
  Python integers are unbounded, hence \<open>int\<close>.
\<close>

record config =
  ROWS :: int
  COLS :: int
  TILE_SIZE :: int
  UPDATE_FREQ :: int
  RANDOM_DENSITY :: real

definition source_config :: config where
  "source_config =
     \<lparr>ROWS = 1200 div 5, COLS = 1200 div 5, TILE_SIZE = 5, UPDATE_FREQ = 2,
      RANDOM_DENSITY = 0.5\<rparr>"

text \<open>A position is a Python tuple of two integers; the live cells are a Python set of them.\<close>

type_synonym position = "int \<times> int"
type_synonym grid = "position set"

text \<open>
  The only exception the arithmetic of main.py can raise is the one of \<^verbatim>\<open>%\<close> and
  \<^verbatim>\<open>//\<close> on a zero divisor. Both operators round towards minus infinity, as \<open>mod\<close>
  and \<open>div\<close> on \<open>int\<close> do.
\<close>

datatype error = ZeroDivisionError

definition py_mod :: "int \<Rightarrow> int \<Rightarrow> error + int" where
  "py_mod a b = (if b = 0 then Inl ZeroDivisionError else Inr (a mod b))"

definition py_floordiv :: "int \<Rightarrow> int \<Rightarrow> error + int" where
  "py_floordiv a b = (if b = 0 then Inl ZeroDivisionError else Inr (a div b))"

text \<open>\<^verbatim>\<open>range(0, n)\<close> as the list of its values.\<close>

definition py_range :: "int \<Rightarrow> int list" where
  "py_range n = [0..n - 1]"

section \<open>Generation engine\<close>

definition offsets :: "(int \<times> int) list" where
  "offsets = [(-1, -1), (-1, 0), (-1, 1), (0, -1), (0, 1), (1, -1), (1, 0), (1, 1)]"

text \<open>
  The loop of \<^verbatim>\<open>count_live_neighbors\<close> over the offsets, with the counter as an
  accumulator. \<^verbatim>\<open>neighbor_x\<close> is computed before \<^verbatim>\<open>neighbor_y\<close>.
\<close>

fun count_loop :: "config \<Rightarrow> grid \<Rightarrow> int \<Rightarrow> int \<Rightarrow> (int \<times> int) list \<Rightarrow> int \<Rightarrow> error + int" where
  "count_loop cfg grid_positions x y [] count_of_live_neighbors = Inr count_of_live_neighbors"
| "count_loop cfg grid_positions x y ((offset_x, offset_y) # rest) count_of_live_neighbors =
     (case py_mod (x + offset_x) (COLS cfg) of
        Inl e \<Rightarrow> Inl e
      | Inr neighbor_x \<Rightarrow>
          (case py_mod (y + offset_y) (ROWS cfg) of
             Inl e \<Rightarrow> Inl e
           | Inr neighbor_y \<Rightarrow>
               count_loop cfg grid_positions x y rest
                 (if (neighbor_x, neighbor_y) \<in> grid_positions
                  then count_of_live_neighbors + 1 else count_of_live_neighbors)))"

definition count_live_neighbors :: "config \<Rightarrow> grid \<Rightarrow> position \<Rightarrow> error + int" where
  "count_live_neighbors cfg grid_positions position =
     (case position of (x, y) \<Rightarrow> count_loop cfg grid_positions x y offsets 0)"

text \<open>
  \<^verbatim>\<open>apply_rules\<close>: the inner loop over \<^verbatim>\<open>col\<close> and the outer loop over
  \<^verbatim>\<open>row\<close>, with \<^verbatim>\<open>updated_grid_positions\<close> as the accumulator. The position
  handed to \<^verbatim>\<open>count_live_neighbors\<close> is \<^verbatim>\<open>(row, col)\<close>.
\<close>

fun apply_rules_cols :: "config \<Rightarrow> grid \<Rightarrow> int \<Rightarrow> int list \<Rightarrow> grid \<Rightarrow> error + grid" where
  "apply_rules_cols cfg grid_positions row [] updated_grid_positions = Inr updated_grid_positions"
| "apply_rules_cols cfg grid_positions row (col # cols) updated_grid_positions =
     (case count_live_neighbors cfg grid_positions (row, col) of
        Inl e \<Rightarrow> Inl e
      | Inr count_of_live_neighbors \<Rightarrow>
          apply_rules_cols cfg grid_positions row cols
            (if (row, col) \<in> grid_positions
                \<and> (count_of_live_neighbors = 2 \<or> count_of_live_neighbors = 3)
             then insert (row, col) updated_grid_positions
             else if count_of_live_neighbors = 3 \<and> (row, col) \<notin> grid_positions
             then insert (row, col) updated_grid_positions
             else updated_grid_positions))"

fun apply_rules_rows :: "config \<Rightarrow> grid \<Rightarrow> int list \<Rightarrow> grid \<Rightarrow> error + grid" where
  "apply_rules_rows cfg grid_positions [] updated_grid_positions = Inr updated_grid_positions"
| "apply_rules_rows cfg grid_positions (row # rows) updated_grid_positions =
     (case apply_rules_cols cfg grid_positions row (py_range (COLS cfg)) updated_grid_positions of
        Inl e \<Rightarrow> Inl e
      | Inr updated_grid_positions' \<Rightarrow>
          apply_rules_rows cfg grid_positions rows updated_grid_positions')"

definition apply_rules :: "config \<Rightarrow> grid \<Rightarrow> error + grid" where
  "apply_rules cfg grid_positions =
     apply_rules_rows cfg grid_positions (py_range (ROWS cfg)) {}"

text \<open>
  The specification's description of the neighbourhood: the eight offsets added to the
  position and wrapped on each axis. It is compared with \<open>count_live_neighbors\<close> below.
\<close>

definition wrapped_neighbors :: "config \<Rightarrow> position \<Rightarrow> position list" where
  "wrapped_neighbors cfg position =
     map (\<lambda>off. ((fst position + fst off) mod COLS cfg, (snd position + snd off) mod ROWS cfg))
       offsets"

text \<open>
  The condition of the \<^verbatim>\<open>if\<close>/\<^verbatim>\<open>elif\<close> of the loop body of
  \<^verbatim>\<open>apply_rules\<close> under which the position is added to the updated set.
\<close>

definition next_alive :: "config \<Rightarrow> grid \<Rightarrow> position \<Rightarrow> bool" where
  "next_alive cfg grid_positions position =
     (if position \<in> grid_positions
      then count_live_neighbors cfg grid_positions position = Inr 2
           \<or> count_live_neighbors cfg grid_positions position = Inr 3
      else count_live_neighbors cfg grid_positions position = Inr 3)"

section \<open>Pattern and random generators\<close>

text \<open>
  \<^verbatim>\<open>generate_random_grid_positions\<close> calls \<^verbatim>\<open>random.random()\<close> exactly once for
  every pair of the two loops. The values it returns are an input of the model:
  \<open>random_value (x, y)\<close> is the value returned when the loops are at \<^verbatim>\<open>x\<close>, \<^verbatim>\<open>y\<close>.
\<close>

definition generate_random_grid_positions :: "config \<Rightarrow> (position \<Rightarrow> real) \<Rightarrow> grid" where
  "generate_random_grid_positions cfg random_value =
     fold (\<lambda>y. fold (\<lambda>x random_grid_positions.
                        if random_value (x, y) < RANDOM_DENSITY cfg
                        then insert (x, y) random_grid_positions
                        else random_grid_positions)
                     (py_range (COLS cfg)))
          (py_range (ROWS cfg)) {}"

text \<open>The five \<^verbatim>\<open>if\<close> statements of the body of \<^verbatim>\<open>generate_pattern\<close>, in order.\<close>

definition pattern_body :: "config \<Rightarrow> int \<Rightarrow> int \<Rightarrow> grid \<Rightarrow> grid" where
  "pattern_body cfg y x pattern_grid_positions =
     (let s1 = (if x = COLS cfg div 2 \<or> y = ROWS cfg div 2
                then insert (x, y) pattern_grid_positions else pattern_grid_positions);
          s2 = (if x = y \<or> x = COLS cfg - y then insert (x, y) s1 else s1);
          s3 = (if ((ROWS cfg - 10) div 2) ^ 2 < (x - COLS cfg div 2) ^ 2 + (y - ROWS cfg div 2) ^ 2
                   \<and> (x - COLS cfg div 2) ^ 2 + (y - ROWS cfg div 2) ^ 2 < (ROWS cfg div 2) ^ 2
                then insert (x, y) s2 else s2);
          s4 = (if y = (ROWS cfg div 2) - (x - COLS cfg div 2) ^ 2 div 100
                then insert (x, y) s3 else s3);
          s5 = (if y = (ROWS cfg div 2) - (x - COLS cfg div 2) ^ 4 div 1000000
                then insert (x, y) s4 else s4)
      in s5)"

definition generate_pattern :: "config \<Rightarrow> grid" where
  "generate_pattern cfg =
     fold (\<lambda>y. fold (pattern_body cfg y) (py_range (COLS cfg))) (py_range (ROWS cfg)) {}"

section \<open>Simulation controller\<close>

text \<open>
  The pygame events the program distinguishes: the event type, the key of a
  \<^verbatim>\<open>KEYDOWN\<close> and the button of a \<^verbatim>\<open>MOUSEBUTTONDOWN\<close>. Every other key and
  every other event type carries its pygame code.
\<close>

datatype key = K_SPACE | K_c | K_r | K_p | K_OTHER int

datatype event = QUIT | KEYDOWN key | MOUSEBUTTONDOWN int | OTHER_EVENT int

text \<open>
  What \<^verbatim>\<open>handle_event\<close> reads from outside while it handles one event: the event, the
  value of \<^verbatim>\<open>pygame.mouse.get_pos()\<close> and the values of \<^verbatim>\<open>random.random()\<close>.
\<close>

record input =
  ev :: event
  mouse_get_pos :: "int \<times> int"
  random_random :: "position \<Rightarrow> real"

definition handle_mouse_click :: "config \<Rightarrow> int \<times> int \<Rightarrow> grid \<Rightarrow> error + grid" where
  "handle_mouse_click cfg mouse_pos grid_positions =
     (case py_floordiv (fst mouse_pos) (TILE_SIZE cfg) of
        Inl e \<Rightarrow> Inl e
      | Inr grid_x \<Rightarrow>
          (case py_floordiv (snd mouse_pos) (TILE_SIZE cfg) of
             Inl e \<Rightarrow> Inl e
           | Inr grid_y \<Rightarrow>
               Inr (if (grid_x, grid_y) \<in> grid_positions
                    then grid_positions - {(grid_x, grid_y)}
                    else insert (grid_x, grid_y) grid_positions)))"

text \<open>The five variables that \<^verbatim>\<open>main\<close> passes to and takes back from \<^verbatim>\<open>handle_event\<close>.\<close>

record state =
  grid_positions :: grid
  count :: int
  playing :: bool
  running :: bool
  iteration :: int

definition handle_event :: "config \<Rightarrow> input \<Rightarrow> state \<Rightarrow> error + state" where
  "handle_event cfg inp st =
     (case ev inp of
        QUIT \<Rightarrow> Inr (st\<lparr>running := False\<rparr>)
      | KEYDOWN k \<Rightarrow>
          (case k of
             K_SPACE \<Rightarrow> Inr (st\<lparr>playing := \<not> playing st\<rparr>)
           | K_c \<Rightarrow> Inr (st\<lparr>grid_positions := {}, playing := False, count := 0, iteration := 0\<rparr>)
           | K_r \<Rightarrow> Inr (st\<lparr>grid_positions := generate_random_grid_positions cfg (random_random inp),
                               iteration := 0\<rparr>)
           | K_p \<Rightarrow> Inr (st\<lparr>grid_positions := generate_pattern cfg, iteration := 0,
                               playing := False\<rparr>)
           | K_OTHER c \<Rightarrow> Inr st)
      | MOUSEBUTTONDOWN button \<Rightarrow>
          (if button = 1
           then (case handle_mouse_click cfg (mouse_get_pos inp) (grid_positions st) of
                   Inl e \<Rightarrow> Inl e
                 | Inr g \<Rightarrow> Inr (st\<lparr>grid_positions := g\<rparr>))
           else Inr st)
      | OTHER_EVENT t \<Rightarrow> Inr st)"

text \<open>The \<^verbatim>\<open>for event in pygame.event.get()\<close> loop of \<^verbatim>\<open>main\<close>.\<close>

fun handle_events :: "config \<Rightarrow> input list \<Rightarrow> state \<Rightarrow> error + state" where
  "handle_events cfg [] st = Inr st"
| "handle_events cfg (inp # inps) st =
     (case handle_event cfg inp st of
        Inl e \<Rightarrow> Inl e
      | Inr st' \<Rightarrow> handle_events cfg inps st')"

text \<open>
  The body of the \<^verbatim>\<open>while running\<close> loop, without the drawing: the two counters, the
  grid update, then the events of this frame.
\<close>

definition advance_counters :: "state \<Rightarrow> state" where
  "advance_counters st =
     (if playing st then st\<lparr>count := count st + 1, iteration := iteration st + 1\<rparr> else st)"

definition update_grid :: "config \<Rightarrow> state \<Rightarrow> error + state" where
  "update_grid cfg st =
     (if count st \<ge> UPDATE_FREQ cfg
      then (case apply_rules cfg (grid_positions st) of
              Inl e \<Rightarrow> Inl e
            | Inr g \<Rightarrow> Inr (st\<lparr>count := 0, grid_positions := g\<rparr>))
      else Inr st)"

definition main_body :: "config \<Rightarrow> input list \<Rightarrow> state \<Rightarrow> error + state" where
  "main_body cfg inputs st =
     (case update_grid cfg (advance_counters st) of
        Inl e \<Rightarrow> Inl e
      | Inr st' \<Rightarrow> handle_events cfg inputs st')"

definition main_init :: state where
  "main_init = \<lparr>grid_positions = {}, count = 0, playing = False, running = True, iteration = 0\<rparr>"

text \<open>
  The \<^verbatim>\<open>while running\<close> loop over the frames that have happened so far, each frame
  given by the inputs of its events. The loop has no bound of its own: a state is
  reachable when some finite list of frames leads to it.
\<close>

fun main_loop :: "config \<Rightarrow> input list list \<Rightarrow> state \<Rightarrow> error + state" where
  "main_loop cfg [] st = Inr st"
| "main_loop cfg (inputs # frames) st =
     (if running st
      then (case main_body cfg inputs st of
              Inl e \<Rightarrow> Inl e
            | Inr st' \<Rightarrow> main_loop cfg frames st')
      else Inr st)"

text \<open>
  History variables, read by no code path: the number of calls of \<^verbatim>\<open>apply_rules\<close>
  and the number of loop iterations begun with \<^verbatim>\<open>playing\<close> set, both since the
  last \<^verbatim>\<open>iteration = 0\<close> of a c, r or p key (or since the start).
\<close>

record tally =
  transitions :: int
  playing_ticks :: int

definition tally_init :: tally where
  "tally_init = \<lparr>transitions = 0, playing_ticks = 0\<rparr>"

definition resets_iteration :: "event \<Rightarrow> bool" where
  "resets_iteration e = (e = KEYDOWN K_c \<or> e = KEYDOWN K_r \<or> e = KEYDOWN K_p)"

fun tally_events :: "input list \<Rightarrow> tally \<Rightarrow> tally" where
  "tally_events [] ta = ta"
| "tally_events (inp # inps) ta =
     tally_events inps (if resets_iteration (ev inp) then tally_init else ta)"

definition tally_body :: "config \<Rightarrow> input list \<Rightarrow> state \<Rightarrow> tally \<Rightarrow> tally" where
  "tally_body cfg inputs st ta =
     (let ta1 = (if playing st then ta\<lparr>playing_ticks := playing_ticks ta + 1\<rparr> else ta);
          ta2 = (if count (advance_counters st) \<ge> UPDATE_FREQ cfg
                 then ta1\<lparr>transitions := transitions ta1 + 1\<rparr> else ta1)
      in tally_events inputs ta2)"

fun main_loop_tally :: "config \<Rightarrow> input list list \<Rightarrow> state \<Rightarrow> tally \<Rightarrow> tally" where
  "main_loop_tally cfg [] st ta = ta"
| "main_loop_tally cfg (inputs # frames) st ta =
     (if running st
      then (case main_body cfg inputs st of
              Inl e \<Rightarrow> ta
            | Inr st' \<Rightarrow> main_loop_tally cfg frames st' (tally_body cfg inputs st ta))
      else ta)"

text \<open>Configurations and inputs for the concrete runs below.\<close>

definition grid5_config :: config where
  "grid5_config = \<lparr>ROWS = 5, COLS = 5, TILE_SIZE = 5, UPDATE_FREQ = 2, RANDOM_DENSITY = 0.5\<rparr>"

definition blinker_config :: config where
  "blinker_config =
     \<lparr>ROWS = 10, COLS = 10, TILE_SIZE = 5, UPDATE_FREQ = 1, RANDOM_DENSITY = 0.5\<rparr>"

definition blinker_vertical :: grid where
  "blinker_vertical = {(5, 5), (5, 6), (5, 7)}"

definition blinker_horizontal :: grid where
  "blinker_horizontal = {(4, 6), (5, 6), (6, 6)}"

definition key_press :: "key \<Rightarrow> input" where
  "key_press k = \<lparr>ev = KEYDOWN k, mouse_get_pos = (0, 0), random_random = (\<lambda>p. 0)\<rparr>"

definition left_click :: "int \<times> int \<Rightarrow> input" where
  "left_click mouse_pos =
     \<lparr>ev = MOUSEBUTTONDOWN 1, mouse_get_pos = mouse_pos, random_random = (\<lambda>p. 0)\<rparr>"

text \<open>
  Grid bounds for a set of positions \<open>(x, y)\<close>: \<open>x\<close> in \<open>[0, COLS)\<close> and \<open>y\<close> in
  \<open>[0, ROWS)\<close>. The window covers the pixels of the grid: in the source
  \<open>COLS * TILE_SIZE = 1200 = SCREEN_WIDTH\<close> and \<open>ROWS * TILE_SIZE = 1200 = SCREEN_HEIGHT\<close>.
\<close>

definition in_grid :: "config \<Rightarrow> grid \<Rightarrow> bool" where
  "in_grid cfg g =
     (\<forall>p \<in> g. 0 \<le> fst p \<and> fst p < COLS cfg \<and> 0 \<le> snd p \<and> snd p < ROWS cfg)"

definition in_window :: "config \<Rightarrow> int \<times> int \<Rightarrow> bool" where
  "in_window cfg mouse_pos =
     (0 \<le> fst mouse_pos \<and> fst mouse_pos < COLS cfg * TILE_SIZE cfg
      \<and> 0 \<le> snd mouse_pos \<and> snd mouse_pos < ROWS cfg * TILE_SIZE cfg)"

text \<open>Every left click of a frame is read at a mouse position inside the window.\<close>

definition clicks_in_window :: "config \<Rightarrow> input list \<Rightarrow> bool" where
  "clicks_in_window cfg inputs =
     (\<forall>inp \<in> set inputs. ev inp = MOUSEBUTTONDOWN 1 \<longrightarrow> in_window cfg (mouse_get_pos inp))"

section \<open>The generation engine: what the loops compute\<close>

lemma set_py_range: "set (py_range n) = {0..<n}"
  by (auto simp: py_range_def)

lemma py_range_empty: "n \<le> 0 \<Longrightarrow> py_range n = []"
  by (simp add: py_range_def)

lemma count_loop_Inr:
  "COLS cfg \<noteq> 0 \<Longrightarrow> ROWS cfg \<noteq> 0 \<Longrightarrow>
   count_loop cfg g x y offs n =
     Inr (n + int (length (filter
       (\<lambda>off. ((x + fst off) mod COLS cfg, (y + snd off) mod ROWS cfg) \<in> g) offs)))"
  by (induction offs arbitrary: n) (auto simp: py_mod_def)

lemma count_live_neighbors_wrapped:
  assumes "COLS cfg \<noteq> 0" "ROWS cfg \<noteq> 0"
  shows "count_live_neighbors cfg g p =
           Inr (int (length (filter (\<lambda>q. q \<in> g) (wrapped_neighbors cfg p))))"
proof -
  obtain x y where p: "p = (x, y)" by (cases p)
  show ?thesis
    unfolding p count_live_neighbors_def wrapped_neighbors_def
    by (simp add: count_loop_Inr[OF assms] filter_map comp_def)
qed

lemma length_wrapped_neighbors: "length (wrapped_neighbors cfg p) = 8"
  by (simp add: wrapped_neighbors_def offsets_def)

lemma apply_rules_cols_eq:
  assumes "COLS cfg \<noteq> 0" "ROWS cfg \<noteq> 0"
  shows "apply_rules_cols cfg g row cols upd =
     Inr (upd \<union> {p. fst p = row \<and> snd p \<in> set cols \<and> next_alive cfg g p})"
proof (induction cols arbitrary: upd)
  case Nil
  then show ?case by simp
next
  case (Cons col cols)
  obtain n where n: "count_live_neighbors cfg g (row, col) = Inr n"
    using count_live_neighbors_wrapped[OF assms] by blast
  have "next_alive cfg g (row, col)
          \<longleftrightarrow> ((row, col) \<in> g \<and> (n = 2 \<or> n = 3)) \<or> (n = 3 \<and> (row, col) \<notin> g)"
    by (auto simp: next_alive_def n)
  then show ?case
    by (auto simp: n Cons.IH)
qed

lemma apply_rules_rows_eq:
  assumes "COLS cfg \<noteq> 0" "ROWS cfg \<noteq> 0"
  shows "apply_rules_rows cfg g rows upd =
     Inr (upd \<union> {p. fst p \<in> set rows \<and> snd p \<in> {0..<COLS cfg} \<and> next_alive cfg g p})"
proof (induction rows arbitrary: upd)
  case Nil
  then show ?case by simp
next
  case (Cons row rows)
  show ?case
    by (auto simp: apply_rules_cols_eq[OF assms] set_py_range Cons.IH)
qed

lemma apply_rules_rows_no_cols:
  "COLS cfg \<le> 0 \<Longrightarrow> apply_rules_rows cfg g rows upd = Inr upd"
  by (induction rows arbitrary: upd) (simp_all add: py_range_empty)

lemma apply_rules_eq:
  "apply_rules cfg g =
     Inr {p. 0 \<le> fst p \<and> fst p < ROWS cfg \<and> 0 \<le> snd p \<and> snd p < COLS cfg
             \<and> next_alive cfg g p}"
proof -
  consider "ROWS cfg \<le> 0" | "0 < ROWS cfg" "COLS cfg \<le> 0" | "0 < ROWS cfg" "0 < COLS cfg"
    by linarith
  then show ?thesis
  proof cases
    case 1
    then show ?thesis by (auto simp: apply_rules_def py_range_empty)
  next
    case 2
    then show ?thesis by (auto simp: apply_rules_def apply_rules_rows_no_cols)
  next
    case 3
    then show ?thesis
      by (auto simp: apply_rules_def apply_rules_rows_eq set_py_range)
  qed
qed

lemma py_range_10: "py_range 10 = [0, 1, 2, 3, 4, 5, 6, 7, 8, 9]"
  by (simp add: py_range_def upto_rec1)

lemma apply_rules_blinker_vertical:
  "apply_rules blinker_config blinker_vertical = Inr blinker_horizontal"
  by (simp add: apply_rules_def blinker_config_def blinker_vertical_def blinker_horizontal_def
      py_range_10 count_live_neighbors_def offsets_def py_mod_def insert_commute)

lemma apply_rules_blinker_horizontal:
  "apply_rules blinker_config blinker_horizontal = Inr blinker_vertical"
  by (simp add: apply_rules_def blinker_config_def blinker_vertical_def blinker_horizontal_def
      py_range_10 count_live_neighbors_def offsets_def py_mod_def insert_commute)

section \<open>Claims about the generation engine\<close>

text \<open>
  C1. For every set of live cells (and every configuration), \<open>apply_rules\<close> returns
  normally, and what it returns is exactly the set of the positions \<open>(row, col)\<close> of the
  full space \<open>range(ROWS) \<times> range(COLS)\<close> that are alive with a live-neighbour count of
  2 or 3, or dead with a live-neighbour count of exactly 3. Every other position is
  absent from the result.
\<close>

theorem C1_apply_rules_exact:
  "apply_rules cfg g =
     Inr {(row, col). 0 \<le> row \<and> row < ROWS cfg \<and> 0 \<le> col \<and> col < COLS cfg
          \<and> (((row, col) \<in> g
                \<and> (count_live_neighbors cfg g (row, col) = Inr 2
                    \<or> count_live_neighbors cfg g (row, col) = Inr 3))
              \<or> ((row, col) \<notin> g \<and> count_live_neighbors cfg g (row, col) = Inr 3))}"
  unfolding apply_rules_eq by (auto simp: next_alive_def)

theorem C1_apply_rules_exact_witness:
  "{(row, col). 0 \<le> row \<and> row < ROWS blinker_config \<and> 0 \<le> col \<and> col < COLS blinker_config
          \<and> (((row, col) \<in> blinker_vertical
                \<and> (count_live_neighbors blinker_config blinker_vertical (row, col) = Inr 2
                    \<or> count_live_neighbors blinker_config blinker_vertical (row, col) = Inr 3))
              \<or> ((row, col) \<notin> blinker_vertical
                  \<and> count_live_neighbors blinker_config blinker_vertical (row, col) = Inr 3))}
   = blinker_horizontal"
  using C1_apply_rules_exact [of blinker_config blinker_vertical]
  by (simp only: apply_rules_blinker_vertical sum.inject)

text \<open>
  C2. On a grid with positive dimensions, \<open>count_live_neighbors\<close> returns an integer
  between 0 and 8: the number of the eight wrapped neighbour coordinates that are live.
  Every neighbour coordinate is wrapped into \<open>[0, COLS) \<times> [0, ROWS)\<close> by a modulo that is
  never negative. On a 5 by 5 grid the neighbours of \<open>(0, 0)\<close> include \<open>(4, 4)\<close>,
  \<open>(4, 0)\<close> and \<open>(0, 4)\<close>, and each of them is counted when it is live.
\<close>

theorem C2_count_live_neighbors:
  assumes "0 < ROWS cfg" and "0 < COLS cfg"
  shows "(\<exists>n. count_live_neighbors cfg g p = Inr n \<and> 0 \<le> n \<and> n \<le> 8
              \<and> n = int (length (filter (\<lambda>q. q \<in> g) (wrapped_neighbors cfg p))))
         \<and> (\<forall>q \<in> set (wrapped_neighbors cfg p).
               0 \<le> fst q \<and> fst q < COLS cfg \<and> 0 \<le> snd q \<and> snd q < ROWS cfg)
         \<and> (ROWS cfg = 5 \<and> COLS cfg = 5 \<longrightarrow>
               {(4, 4), (4, 0), (0, 4)} \<subseteq> set (wrapped_neighbors cfg (0, 0))
               \<and> count_live_neighbors cfg {(4, 4)} (0, 0) = Inr 1
               \<and> count_live_neighbors cfg {(4, 0)} (0, 0) = Inr 1
               \<and> count_live_neighbors cfg {(0, 4)} (0, 0) = Inr 1
               \<and> count_live_neighbors cfg {(4, 4), (4, 0), (0, 4)} (0, 0) = Inr 3)"
proof -
  have nz: "COLS cfg \<noteq> 0" "ROWS cfg \<noteq> 0" using assms by auto
  have "length (filter (\<lambda>q. q \<in> g) (wrapped_neighbors cfg p)) \<le> 8"
    using length_filter_le[of "\<lambda>q. q \<in> g" "wrapped_neighbors cfg p"]
    by (simp add: length_wrapped_neighbors)
  then have a: "\<exists>n. count_live_neighbors cfg g p = Inr n \<and> 0 \<le> n \<and> n \<le> 8
              \<and> n = int (length (filter (\<lambda>q. q \<in> g) (wrapped_neighbors cfg p)))"
    by (simp add: count_live_neighbors_wrapped[OF nz])
  have b: "\<forall>q \<in> set (wrapped_neighbors cfg p).
               0 \<le> fst q \<and> fst q < COLS cfg \<and> 0 \<le> snd q \<and> snd q < ROWS cfg"
    using assms by (auto simp: wrapped_neighbors_def)
  have c: "ROWS cfg = 5 \<and> COLS cfg = 5 \<longrightarrow>
               {(4, 4), (4, 0), (0, 4)} \<subseteq> set (wrapped_neighbors cfg (0, 0))
               \<and> count_live_neighbors cfg {(4, 4)} (0, 0) = Inr 1
               \<and> count_live_neighbors cfg {(4, 0)} (0, 0) = Inr 1
               \<and> count_live_neighbors cfg {(0, 4)} (0, 0) = Inr 1
               \<and> count_live_neighbors cfg {(4, 4), (4, 0), (0, 4)} (0, 0) = Inr 3"
    by (simp add: wrapped_neighbors_def offsets_def count_live_neighbors_def py_mod_def)
  from a b c show ?thesis by blast
qed

theorem C2_count_live_neighbors_witness:
  "0 < ROWS grid5_config \<and> 0 < COLS grid5_config
   \<and> ROWS grid5_config = 5 \<and> COLS grid5_config = 5
   \<and> (\<exists>n. count_live_neighbors grid5_config {(1, 1), (3, 3)} (0, 0) = Inr n \<and> 0 \<le> n \<and> n \<le> 8)
   \<and> {(4, 4), (4, 0), (0, 4)} \<subseteq> set (wrapped_neighbors grid5_config (0, 0))
   \<and> count_live_neighbors grid5_config {(4, 4), (4, 0), (0, 4)} (0, 0) = Inr 3"
proof -
  have h: "0 < ROWS grid5_config" "0 < COLS grid5_config"
    and d: "ROWS grid5_config = 5 \<and> COLS grid5_config = 5"
    by (simp_all add: grid5_config_def)
  from C2_count_live_neighbors [OF h, of "{(1, 1), (3, 3)}" "(0, 0)"] d h
  show ?thesis by blast
qed

section \<open>The controller: what one event and one loop iteration do\<close>

lemma handle_event_K_r:
  "ev inp = KEYDOWN K_r \<Longrightarrow>
   handle_event cfg inp st =
     Inr (st\<lparr>grid_positions := generate_random_grid_positions cfg (random_random inp),
             iteration := 0\<rparr>)"
  by (simp add: handle_event_def)

lemma handle_event_K_p:
  "ev inp = KEYDOWN K_p \<Longrightarrow>
   handle_event cfg inp st =
     Inr (st\<lparr>grid_positions := generate_pattern cfg, iteration := 0, playing := False\<rparr>)"
  by (simp add: handle_event_def)

lemma handle_mouse_click_Inr:
  "TILE_SIZE cfg \<noteq> 0 \<Longrightarrow>
   handle_mouse_click cfg mp g =
     Inr (if (fst mp div TILE_SIZE cfg, snd mp div TILE_SIZE cfg) \<in> g
          then g - {(fst mp div TILE_SIZE cfg, snd mp div TILE_SIZE cfg)}
          else insert (fst mp div TILE_SIZE cfg, snd mp div TILE_SIZE cfg) g)"
  by (simp add: handle_mouse_click_def py_floordiv_def)

lemma handle_event_count:
  "handle_event cfg inp st = Inr st' \<Longrightarrow> count st' = count st \<or> count st' = 0"
  by (auto simp: handle_event_def split: event.splits key.splits if_splits sum.splits)

lemma handle_events_count:
  "handle_events cfg inps st = Inr st' \<Longrightarrow> count st' = count st \<or> count st' = 0"
proof (induction inps arbitrary: st)
  case Nil
  then show ?case by simp
next
  case (Cons inp inps)
  then obtain st1 where a: "handle_event cfg inp st = Inr st1"
    and b: "handle_events cfg inps st1 = Inr st'"
    by (auto split: sum.splits)
  from handle_event_count[OF a] Cons.IH[OF b] show ?case by auto
qed

lemma update_grid_count:
  "0 < UPDATE_FREQ cfg \<Longrightarrow> update_grid cfg st = Inr st' \<Longrightarrow> count st' < UPDATE_FREQ cfg"
  by (auto simp: update_grid_def split: if_splits sum.splits)

lemma main_body_count:
  assumes "0 < UPDATE_FREQ cfg" and "main_body cfg inputs st = Inr st'"
  shows "count st' < UPDATE_FREQ cfg"
proof -
  from assms(2) obtain st1 where a: "update_grid cfg (advance_counters st) = Inr st1"
    and b: "handle_events cfg inputs st1 = Inr st'"
    by (auto simp: main_body_def split: sum.splits)
  from update_grid_count[OF assms(1) a] handle_events_count[OF b] assms(1)
  show ?thesis by auto
qed

lemma main_loop_count:
  "0 < UPDATE_FREQ cfg \<Longrightarrow> count st < UPDATE_FREQ cfg \<Longrightarrow>
   main_loop cfg frames st = Inr st' \<Longrightarrow> count st' < UPDATE_FREQ cfg"
proof (induction frames arbitrary: st)
  case Nil
  then show ?case by simp
next
  case (Cons inputs frames)
  show ?case
  proof (cases "running st")
    case False
    with Cons.prems show ?thesis by simp
  next
    case True
    with Cons.prems(3) obtain st1 where a: "main_body cfg inputs st = Inr st1"
      and b: "main_loop cfg frames st1 = Inr st'"
      by (auto split: sum.splits)
    from Cons.IH[OF Cons.prems(1) main_body_count[OF Cons.prems(1) a] b]
    show ?thesis .
  qed
qed

lemma handle_event_left_click:
  "TILE_SIZE cfg \<noteq> 0 \<Longrightarrow> ev inp = MOUSEBUTTONDOWN 1 \<Longrightarrow>
   handle_event cfg inp st =
     Inr (st\<lparr>grid_positions :=
        (if (fst (mouse_get_pos inp) div TILE_SIZE cfg, snd (mouse_get_pos inp) div TILE_SIZE cfg)
              \<in> grid_positions st
         then grid_positions st
                - {(fst (mouse_get_pos inp) div TILE_SIZE cfg, snd (mouse_get_pos inp) div TILE_SIZE cfg)}
         else insert (fst (mouse_get_pos inp) div TILE_SIZE cfg, snd (mouse_get_pos inp) div TILE_SIZE cfg)
                (grid_positions st))\<rparr>)"
  by (simp add: handle_event_def handle_mouse_click_Inr)

subsection \<open>The counter and the history variables move together\<close>

lemma handle_event_iteration:
  assumes "handle_event cfg inp st = Inr st'" and "iteration st = playing_ticks ta"
  shows "iteration st' = playing_ticks (if resets_iteration (ev inp) then tally_init else ta)"
  using assms
  by (auto simp: handle_event_def resets_iteration_def tally_init_def
      split: event.splits key.splits if_splits sum.splits)

lemma handle_events_iteration:
  "handle_events cfg inps st = Inr st' \<Longrightarrow> iteration st = playing_ticks ta \<Longrightarrow>
   iteration st' = playing_ticks (tally_events inps ta)"
proof (induction inps arbitrary: st ta)
  case Nil
  then show ?case by simp
next
  case (Cons inp inps)
  from Cons.prems(1) obtain st1 where a: "handle_event cfg inp st = Inr st1"
    and b: "handle_events cfg inps st1 = Inr st'"
    by (auto split: sum.splits)
  from Cons.IH[OF b handle_event_iteration[OF a Cons.prems(2)]]
  show ?case by simp
qed

lemma update_grid_iteration:
  "update_grid cfg st = Inr st' \<Longrightarrow> iteration st' = iteration st"
  by (auto simp: update_grid_def split: if_splits sum.splits)

lemma main_body_iteration:
  assumes "main_body cfg inputs st = Inr st'" and "iteration st = playing_ticks ta"
  shows "iteration st' = playing_ticks (tally_body cfg inputs st ta)"
proof -
  from assms(1) obtain st1 where a: "update_grid cfg (advance_counters st) = Inr st1"
    and b: "handle_events cfg inputs st1 = Inr st'"
    by (auto simp: main_body_def split: sum.splits)
  have "iteration st1 = (if playing st then iteration st + 1 else iteration st)"
    using update_grid_iteration[OF a] by (simp add: advance_counters_def)
  with assms(2) have "iteration st1 =
      playing_ticks (let ta1 = (if playing st then ta\<lparr>playing_ticks := playing_ticks ta + 1\<rparr> else ta)
                     in if count (advance_counters st) \<ge> UPDATE_FREQ cfg
                        then ta1\<lparr>transitions := transitions ta1 + 1\<rparr> else ta1)"
    by (simp add: Let_def)
  from handle_events_iteration[OF b this] show ?thesis
    by (simp add: tally_body_def Let_def)
qed

lemma main_loop_iteration:
  "main_loop cfg frames st = Inr st' \<Longrightarrow> iteration st = playing_ticks ta \<Longrightarrow>
   iteration st' = playing_ticks (main_loop_tally cfg frames st ta)"
proof (induction frames arbitrary: st ta)
  case Nil
  then show ?case by simp
next
  case (Cons inputs frames)
  show ?case
  proof (cases "running st")
    case False
    with Cons.prems show ?thesis by simp
  next
    case True
    with Cons.prems(1) obtain st1 where a: "main_body cfg inputs st = Inr st1"
      and b: "main_loop cfg frames st1 = Inr st'"
      by (auto split: sum.splits)
    from Cons.IH[OF b main_body_iteration[OF a Cons.prems(2)]] True a
    show ?thesis by simp
  qed
qed

subsection \<open>Which coordinates are stored\<close>

lemma in_grid_empty: "in_grid cfg {}"
  by (simp add: in_grid_def)

lemma in_grid_insert:
  "in_grid cfg g \<Longrightarrow> 0 \<le> x \<Longrightarrow> x < COLS cfg \<Longrightarrow> 0 \<le> y \<Longrightarrow> y < ROWS cfg \<Longrightarrow>
   in_grid cfg (insert (x, y) g)"
  by (simp add: in_grid_def)

lemma in_grid_Diff: "in_grid cfg g \<Longrightarrow> in_grid cfg (g - h)"
  by (simp add: in_grid_def)

lemma random_cols_in_grid:
  "in_grid cfg acc \<Longrightarrow> 0 \<le> y \<Longrightarrow> y < ROWS cfg \<Longrightarrow> set xs \<subseteq> {0..<COLS cfg} \<Longrightarrow>
   in_grid cfg (fold (\<lambda>x s. if rnd (x, y) < RANDOM_DENSITY cfg then insert (x, y) s else s) xs acc)"
  by (induction xs arbitrary: acc) (auto simp: in_grid_insert)

lemma random_rows_in_grid:
  "in_grid cfg acc \<Longrightarrow> set ys \<subseteq> {0..<ROWS cfg} \<Longrightarrow>
   in_grid cfg (fold (\<lambda>y. fold (\<lambda>x s. if rnd (x, y) < RANDOM_DENSITY cfg
                                         then insert (x, y) s else s)
                                 (py_range (COLS cfg))) ys acc)"
  by (induction ys arbitrary: acc) (auto simp: random_cols_in_grid set_py_range)

lemma generate_random_in_grid: "in_grid cfg (generate_random_grid_positions cfg rnd)"
  unfolding generate_random_grid_positions_def
  by (rule random_rows_in_grid) (simp_all add: in_grid_empty set_py_range)

lemma in_grid_if_insert:
  "in_grid cfg g \<Longrightarrow> 0 \<le> x \<Longrightarrow> x < COLS cfg \<Longrightarrow> 0 \<le> y \<Longrightarrow> y < ROWS cfg \<Longrightarrow>
   in_grid cfg (if b then insert (x, y) g else g)"
  by (simp add: in_grid_insert)

lemma pattern_body_in_grid:
  assumes "in_grid cfg acc" and "0 \<le> x" and "x < COLS cfg" and "0 \<le> y" and "y < ROWS cfg"
  shows "in_grid cfg (pattern_body cfg y x acc)"
  unfolding pattern_body_def Let_def
  by (intro in_grid_if_insert assms)

lemma pattern_cols_in_grid:
  "in_grid cfg acc \<Longrightarrow> 0 \<le> y \<Longrightarrow> y < ROWS cfg \<Longrightarrow> set xs \<subseteq> {0..<COLS cfg} \<Longrightarrow>
   in_grid cfg (fold (pattern_body cfg y) xs acc)"
  by (induction xs arbitrary: acc) (auto simp: pattern_body_in_grid)

lemma pattern_rows_in_grid:
  "in_grid cfg acc \<Longrightarrow> set ys \<subseteq> {0..<ROWS cfg} \<Longrightarrow>
   in_grid cfg (fold (\<lambda>y. fold (pattern_body cfg y) (py_range (COLS cfg))) ys acc)"
  by (induction ys arbitrary: acc) (auto simp: pattern_cols_in_grid set_py_range)

lemma generate_pattern_in_grid: "in_grid cfg (generate_pattern cfg)"
  unfolding generate_pattern_def
  by (rule pattern_rows_in_grid) (simp_all add: in_grid_empty set_py_range)

lemma apply_rules_in_grid:
  "ROWS cfg = COLS cfg \<Longrightarrow> apply_rules cfg g = Inr g' \<Longrightarrow> in_grid cfg g'"
  by (auto simp: apply_rules_eq in_grid_def)

lemma int_div_less:
  fixes a b c :: int
  assumes "0 < b" and "a < c * b"
  shows "a div b < c"
proof (rule ccontr)
  assume "\<not> a div b < c"
  then have "c \<le> a div b" by simp
  with assms(1) have "c * b \<le> a div b * b" by (simp add: mult_right_mono)
  also have "a div b * b = a - a mod b" by (simp add: minus_mod_eq_div_mult)
  also have "\<dots> \<le> a" using assms(1) by simp
  finally show False using assms(2) by simp
qed

lemma in_window_cell:
  assumes "0 < TILE_SIZE cfg" and "in_window cfg mp"
  shows "0 \<le> fst mp div TILE_SIZE cfg \<and> fst mp div TILE_SIZE cfg < COLS cfg
         \<and> 0 \<le> snd mp div TILE_SIZE cfg \<and> snd mp div TILE_SIZE cfg < ROWS cfg"
  using assms
  by (simp add: in_window_def pos_imp_zdiv_nonneg_iff int_div_less)

lemma handle_event_in_grid:
  assumes "0 < TILE_SIZE cfg"
    and "ev inp = MOUSEBUTTONDOWN 1 \<longrightarrow> in_window cfg (mouse_get_pos inp)"
    and "in_grid cfg (grid_positions st)"
    and "handle_event cfg inp st = Inr st'"
  shows "in_grid cfg (grid_positions st')"
proof (cases "ev inp = MOUSEBUTTONDOWN 1")
  case True
  with assms(2) have w: "in_window cfg (mouse_get_pos inp)" by simp
  from assms(1) have nz: "TILE_SIZE cfg \<noteq> 0" by simp
  from assms(4) in_window_cell[OF assms(1) w] assms(3) show ?thesis
    unfolding handle_event_left_click[OF nz True]
    by (auto simp: in_grid_insert in_grid_Diff)
next
  case False
  with assms(3,4) show ?thesis
    by (auto simp: handle_event_def generate_random_in_grid generate_pattern_in_grid in_grid_empty
        split: event.splits key.splits if_splits)
qed

lemma handle_events_in_grid:
  "0 < TILE_SIZE cfg \<Longrightarrow> clicks_in_window cfg inps \<Longrightarrow> in_grid cfg (grid_positions st) \<Longrightarrow>
   handle_events cfg inps st = Inr st' \<Longrightarrow> in_grid cfg (grid_positions st')"
proof (induction inps arbitrary: st)
  case Nil
  then show ?case by simp
next
  case (Cons inp inps)
  from Cons.prems(4) obtain st1 where a: "handle_event cfg inp st = Inr st1"
    and b: "handle_events cfg inps st1 = Inr st'"
    by (auto split: sum.splits)
  from Cons.prems(2) have c: "ev inp = MOUSEBUTTONDOWN 1 \<longrightarrow> in_window cfg (mouse_get_pos inp)"
    and d: "clicks_in_window cfg inps"
    by (simp_all add: clicks_in_window_def)
  from Cons.IH[OF Cons.prems(1) d handle_event_in_grid[OF Cons.prems(1) c Cons.prems(3) a] b]
  show ?case .
qed

lemma update_grid_in_grid:
  "ROWS cfg = COLS cfg \<Longrightarrow> in_grid cfg (grid_positions st) \<Longrightarrow>
   update_grid cfg st = Inr st' \<Longrightarrow> in_grid cfg (grid_positions st')"
  by (auto simp: update_grid_def apply_rules_in_grid split: if_splits sum.splits)

lemma main_body_in_grid:
  assumes "0 < TILE_SIZE cfg" and "ROWS cfg = COLS cfg" and "clicks_in_window cfg inputs"
    and "in_grid cfg (grid_positions st)" and "main_body cfg inputs st = Inr st'"
  shows "in_grid cfg (grid_positions st')"
proof -
  from assms(5) obtain st1 where a: "update_grid cfg (advance_counters st) = Inr st1"
    and b: "handle_events cfg inputs st1 = Inr st'"
    by (auto simp: main_body_def split: sum.splits)
  have "in_grid cfg (grid_positions (advance_counters st))"
    using assms(4) by (simp add: advance_counters_def)
  from handle_events_in_grid[OF assms(1) assms(3) update_grid_in_grid[OF assms(2) this a] b]
  show ?thesis .
qed

lemma main_loop_in_grid:
  "0 < TILE_SIZE cfg \<Longrightarrow> ROWS cfg = COLS cfg \<Longrightarrow>
   \<forall>inputs \<in> set frames. clicks_in_window cfg inputs \<Longrightarrow>
   in_grid cfg (grid_positions st) \<Longrightarrow> main_loop cfg frames st = Inr st' \<Longrightarrow>
   in_grid cfg (grid_positions st')"
proof (induction frames arbitrary: st)
  case Nil
  then show ?case by simp
next
  case (Cons inputs frames)
  show ?case
  proof (cases "running st")
    case False
    with Cons.prems show ?thesis by simp
  next
    case True
    with Cons.prems(5) obtain st1 where a: "main_body cfg inputs st = Inr st1"
      and b: "main_loop cfg frames st1 = Inr st'"
      by (auto split: sum.splits)
    from Cons.prems(3) have c: "clicks_in_window cfg inputs"
      and d: "\<forall>inputs \<in> set frames. clicks_in_window cfg inputs"
      by simp_all
    from Cons.IH[OF Cons.prems(1,2) d main_body_in_grid[OF Cons.prems(1,2) c Cons.prems(4) a] b]
    show ?thesis .
  qed
qed

section \<open>Claims about the controller\<close>

text \<open>
  C3, as stated, fails: the r key and the p key do not reset the tick accumulator
  \<open>count\<close>. From a state with \<open>count = 1\<close> both leave \<open>count = 1\<close>.
\<close>

theorem C3_counterexample:
  "map_sum id count (handle_event source_config (key_press K_r)
      \<lparr>grid_positions = {}, count = 1, playing = True, running = True, iteration = 1\<rparr>) = Inr 1
   \<and> map_sum id count (handle_event source_config (key_press K_p)
      \<lparr>grid_positions = {}, count = 1, playing = True, running = True, iteration = 1\<rparr>) = Inr 1"
  by (simp add: handle_event_K_r handle_event_K_p key_press_def)

text \<open>
  C3, amended. For every prior state, the Randomize command (r key) and the SeedPattern
  command (p key) return normally, leave the tick accumulator \<open>count\<close> as it was, and
  reset the generation counter \<open>iteration\<close> to 0.
\<close>

theorem C3_randomize_seed_keep_count:
  assumes "ev inp = KEYDOWN K_r \<or> ev inp = KEYDOWN K_p"
  shows "\<exists>st'. handle_event cfg inp st = Inr st' \<and> count st' = count st \<and> iteration st' = 0"
  using assms by (auto simp: handle_event_K_r handle_event_K_p)

theorem C3_randomize_seed_keep_count_witness:
  "(ev (key_press K_r) = KEYDOWN K_r \<or> ev (key_press K_r) = KEYDOWN K_p)
   \<and> (\<exists>st'. handle_event source_config (key_press K_r)
          \<lparr>grid_positions = {}, count = 1, playing = True, running = True, iteration = 1\<rparr> = Inr st'
        \<and> count st' = 1 \<and> iteration st' = 0)"
proof -
  have h: "ev (key_press K_r) = KEYDOWN K_r \<or> ev (key_press K_r) = KEYDOWN K_p"
    by (simp add: key_press_def)
  from C3_randomize_seed_keep_count [OF h, of source_config
      "\<lparr>grid_positions = {}, count = 1, playing = True, running = True, iteration = 1\<rparr>"] h
  show ?thesis by simp
qed

text \<open>
  C4, as stated, fails: with the source's constants, after the space key in the first
  frame and one more frame, \<open>iteration\<close> is 1 while \<open>apply_rules\<close> has not been called.
\<close>

theorem C4_counterexample:
  "map_sum id iteration (main_loop source_config [[key_press K_SPACE], []] main_init) = Inr 1
   \<and> transitions (main_loop_tally source_config [[key_press K_SPACE], []] main_init tally_init) = 0"
  by (simp add: source_config_def main_init_def tally_init_def key_press_def main_body_def
      advance_counters_def update_grid_def handle_event_def tally_body_def resets_iteration_def)

text \<open>
  C4, amended. In every reachable state of the controller loop, the generation counter
  \<open>iteration\<close> equals the number of loop iterations (ticks) that began in Playing mode
  since it was last reset to zero by a clear, randomize or pattern-seed command: it is
  incremented once per tick while playing, whether or not that tick makes a generation
  transition.
\<close>

theorem C4_iteration_counts_playing_ticks:
  assumes "main_loop cfg frames main_init = Inr st"
  shows "iteration st = playing_ticks (main_loop_tally cfg frames main_init tally_init)"
  using assms by (rule main_loop_iteration) (simp add: main_init_def tally_init_def)

theorem C4_iteration_counts_playing_ticks_witness:
  "main_loop source_config [[key_press K_SPACE], []] main_init
     = Inr \<lparr>grid_positions = {}, count = 1, playing = True, running = True, iteration = 1\<rparr>
   \<and> playing_ticks (main_loop_tally source_config [[key_press K_SPACE], []] main_init tally_init)
       = 1"
proof -
  have h: "main_loop source_config [[key_press K_SPACE], []] main_init
     = Inr \<lparr>grid_positions = {}, count = 1, playing = True, running = True, iteration = 1\<rparr>"
    by (simp add: source_config_def main_init_def key_press_def main_body_def
        advance_counters_def update_grid_def handle_event_def)
  from C4_iteration_counts_playing_ticks [OF h] h show ?thesis by simp
qed

text \<open>
  C5. With a positive ticks-per-generation threshold, in every reachable state whose run
  mode is Paused the next tick makes no generation transition: the threshold test fails,
  the update step returns the state as it is, and the tick is nothing but the handling of
  its events, so only user commands can change the live-cell set.
\<close>

theorem C5_paused_no_transition:
  assumes "0 < UPDATE_FREQ cfg"
    and "main_loop cfg frames main_init = Inr st"
    and "\<not> playing st"
  shows "\<not> (count (advance_counters st) \<ge> UPDATE_FREQ cfg)
         \<and> update_grid cfg (advance_counters st) = Inr st
         \<and> main_body cfg inputs st = handle_events cfg inputs st"
proof -
  have "count main_init < UPDATE_FREQ cfg" using assms(1) by (simp add: main_init_def)
  from main_loop_count[OF assms(1) this assms(2)] have "count st < UPDATE_FREQ cfg" .
  with assms(3) show ?thesis
    by (simp add: advance_counters_def update_grid_def main_body_def)
qed

theorem C5_paused_no_transition_witness:
  "0 < UPDATE_FREQ source_config
   \<and> main_loop source_config [[key_press K_SPACE], [key_press K_SPACE]] main_init
       = Inr \<lparr>grid_positions = {}, count = 1, playing = False, running = True, iteration = 1\<rparr>
   \<and> main_body source_config []
        \<lparr>grid_positions = {}, count = 1, playing = False, running = True, iteration = 1\<rparr>
       = Inr \<lparr>grid_positions = {}, count = 1, playing = False, running = True, iteration = 1\<rparr>"
proof -
  have p: "0 < UPDATE_FREQ source_config" by (simp add: source_config_def)
  have h: "main_loop source_config [[key_press K_SPACE], [key_press K_SPACE]] main_init
       = Inr \<lparr>grid_positions = {}, count = 1, playing = False, running = True, iteration = 1\<rparr>"
    by (simp add: source_config_def main_init_def key_press_def main_body_def
        advance_counters_def update_grid_def handle_event_def)
  from C5_paused_no_transition [OF p h, of "[]"] p h show ?thesis by simp
qed

text \<open>
  C6, as stated, fails: the mouse-click toggle stores the cell of the mouse position
  without wrapping or checking it. With the source's constants a left click read at the
  mouse position \<open>(1200, 0)\<close> stores \<open>(240, 0)\<close>, which is outside the 240 by 240 grid.
\<close>

theorem C6_counterexample:
  "map_sum id grid_positions (main_loop source_config [[left_click (1200, 0)]] main_init)
     = Inr {(240, 0)}
   \<and> \<not> in_grid source_config {(240, 0)}"
  by (simp add: source_config_def main_init_def left_click_def main_body_def
      advance_counters_def update_grid_def handle_event_def handle_mouse_click_def
      py_floordiv_def in_grid_def)

text \<open>
  C6, amended. On a square grid (\<open>ROWS = COLS\<close>, as in the source) with a positive tile
  size, in every state reachable through frames whose left clicks are read at mouse
  positions inside the window, every coordinate of the live-cell set lies within
  \<open>[0, COLS) \<times> [0, ROWS)\<close>. The generation step, the random generator and the pattern
  generator only ever return in-bounds coordinates; the mouse-click toggle stores the cell
  of the mouse position as it is.
\<close>

theorem C6_in_grid_when_clicks_in_window:
  assumes "0 < TILE_SIZE cfg" and "ROWS cfg = COLS cfg"
    and "\<forall>inputs \<in> set frames. clicks_in_window cfg inputs"
    and "main_loop cfg frames main_init = Inr st"
  shows "in_grid cfg (grid_positions st)
         \<and> in_grid cfg (generate_random_grid_positions cfg rnd)
         \<and> in_grid cfg (generate_pattern cfg)
         \<and> (\<forall>g g'. apply_rules cfg g = Inr g' \<longrightarrow> in_grid cfg g')"
proof -
  have "in_grid cfg (grid_positions main_init)"
    by (simp add: main_init_def in_grid_empty)
  from main_loop_in_grid[OF assms(1,2,3) this assms(4)]
  show ?thesis
    using assms(2)
    by (auto simp: generate_random_in_grid generate_pattern_in_grid apply_rules_in_grid)
qed

theorem C6_in_grid_when_clicks_in_window_witness:
  "0 < TILE_SIZE blinker_config \<and> ROWS blinker_config = COLS blinker_config
   \<and> clicks_in_window blinker_config [left_click (12, 7)]
   \<and> main_loop blinker_config [[left_click (12, 7)]] main_init
       = Inr \<lparr>grid_positions = {(2, 1)}, count = 0, playing = False, running = True,
              iteration = 0\<rparr>
   \<and> in_grid blinker_config {(2, 1)}
   \<and> in_grid blinker_config blinker_horizontal"
proof -
  have a: "0 < TILE_SIZE blinker_config" and b: "ROWS blinker_config = COLS blinker_config"
    by (simp_all add: blinker_config_def)
  have c: "\<forall>inputs \<in> set [[left_click (12, 7)]]. clicks_in_window blinker_config inputs"
    by (simp add: clicks_in_window_def in_window_def left_click_def blinker_config_def)
  have h: "main_loop blinker_config [[left_click (12, 7)]] main_init
       = Inr \<lparr>grid_positions = {(2, 1)}, count = 0, playing = False, running = True,
              iteration = 0\<rparr>"
    by (simp add: blinker_config_def main_init_def left_click_def main_body_def
        advance_counters_def update_grid_def handle_event_def handle_mouse_click_def
        py_floordiv_def)
  from C6_in_grid_when_clicks_in_window [OF a b c h] apply_rules_blinker_vertical a b c h
  show ?thesis by simp
qed

text \<open>
  C7. On a 10 by 10 grid with a ticks-per-generation threshold of 1, from the paused
  state with live set \<open>{(5,5), (5,6), (5,7)}\<close>, the space key sets Playing; the first tick
  then gives the live set \<open>{(4,6), (5,6), (6,6)}\<close> and the second tick gives back
  \<open>{(5,5), (5,6), (5,7)}\<close>.
\<close>

theorem C7_blinker_scenario:
  "handle_event blinker_config (key_press K_SPACE)
      \<lparr>grid_positions = {(5, 5), (5, 6), (5, 7)}, count = 0, playing = False, running = True,
       iteration = 0\<rparr>
     = Inr \<lparr>grid_positions = {(5, 5), (5, 6), (5, 7)}, count = 0, playing = True, running = True,
            iteration = 0\<rparr>
   \<and> main_body blinker_config []
      \<lparr>grid_positions = {(5, 5), (5, 6), (5, 7)}, count = 0, playing = True, running = True,
       iteration = 0\<rparr>
     = Inr \<lparr>grid_positions = {(4, 6), (5, 6), (6, 6)}, count = 0, playing = True, running = True,
            iteration = 1\<rparr>
   \<and> main_body blinker_config []
      \<lparr>grid_positions = {(4, 6), (5, 6), (6, 6)}, count = 0, playing = True, running = True,
       iteration = 1\<rparr>
     = Inr \<lparr>grid_positions = {(5, 5), (5, 6), (5, 7)}, count = 0, playing = True, running = True,
            iteration = 2\<rparr>
   \<and> ROWS blinker_config = 10 \<and> COLS blinker_config = 10 \<and> UPDATE_FREQ blinker_config = 1"
proof -
  have v: "apply_rules blinker_config {(5, 5), (5, 6), (5, 7)} = Inr {(4, 6), (5, 6), (6, 6)}"
    using apply_rules_blinker_vertical
    by (simp only: blinker_vertical_def blinker_horizontal_def)
  have h: "apply_rules blinker_config {(4, 6), (5, 6), (6, 6)} = Inr {(5, 5), (5, 6), (5, 7)}"
    using apply_rules_blinker_horizontal
    by (simp only: blinker_vertical_def blinker_horizontal_def)
  have f: "UPDATE_FREQ blinker_config = 1" "ROWS blinker_config = 10" "COLS blinker_config = 10"
    by (simp_all add: blinker_config_def)
  show ?thesis
    by (simp add: handle_event_def key_press_def main_body_def advance_counters_def
        update_grid_def v h f)
qed

text \<open>
  C8. The cell toggle is an involution: two clicks whose mouse positions fall into the
  same cell \<open>(x, y)\<close>, with nothing in between, both return normally; the first flips the
  membership of \<open>(x, y)\<close>, the second restores it, and the whole live-cell set is the
  original one again.
\<close>

theorem C8_toggle_involution:
  assumes "TILE_SIZE cfg \<noteq> 0"
    and "fst mp1 div TILE_SIZE cfg = x" "snd mp1 div TILE_SIZE cfg = y"
    and "fst mp2 div TILE_SIZE cfg = x" "snd mp2 div TILE_SIZE cfg = y"
  shows "\<exists>g1 g2. handle_mouse_click cfg mp1 g = Inr g1 \<and> handle_mouse_click cfg mp2 g1 = Inr g2
           \<and> ((x, y) \<in> g1 \<longleftrightarrow> (x, y) \<notin> g) \<and> ((x, y) \<in> g2 \<longleftrightarrow> (x, y) \<in> g) \<and> g2 = g"
  using assms by (auto simp: handle_mouse_click_Inr)

theorem C8_toggle_involution_witness:
  "TILE_SIZE source_config \<noteq> 0
   \<and> fst (12, 7) div TILE_SIZE source_config = 2 \<and> snd (12, 7) div TILE_SIZE source_config = 1
   \<and> fst (14, 9) div TILE_SIZE source_config = 2 \<and> snd (14, 9) div TILE_SIZE source_config = 1
   \<and> (\<exists>g1 g2. handle_mouse_click source_config (12, 7) {(0, 0), (2, 1)} = Inr g1
         \<and> handle_mouse_click source_config (14, 9) g1 = Inr g2
         \<and> (2, 1) \<notin> g1 \<and> g2 = {(0, 0), (2, 1)})"
proof -
  have a: "TILE_SIZE source_config \<noteq> 0"
    and b: "fst (12, 7) div TILE_SIZE source_config = 2"
           "snd (12, 7) div TILE_SIZE source_config = 1"
    and c: "fst (14, 9) div TILE_SIZE source_config = 2"
           "snd (14, 9) div TILE_SIZE source_config = 1"
    by (simp_all add: source_config_def)
  from C8_toggle_involution [OF a b c, of "{(0, 0), (2, 1)}"] a b c
  show ?thesis by simp
qed

text \<open>
  C9, as stated, fails: nothing is rejected. With the source's constants a left click
  read at the mouse position \<open>(1200, 0)\<close> returns normally with the cell \<open>(240, 0)\<close>,
  which is outside the 240 columns, inserted into the live-cell set.
\<close>

theorem C9_counterexample:
  "handle_event source_config (left_click (1200, 0)) main_init
     = Inr (main_init\<lparr>grid_positions := {(240, 0)}\<rparr>)
   \<and> \<not> (240 < COLS source_config)"
  by (simp add: source_config_def main_init_def left_click_def handle_event_def
      handle_mouse_click_def py_floordiv_def)

text \<open>
  C9, amended. The controller checks no bounds: for every mouse position, also one whose
  cell \<open>(x, y)\<close> lies outside the grid, a left click returns normally with \<open>(x, y)\<close>
  toggled in the live-cell set (removed if present, inserted if absent) and every other
  state component unchanged.
\<close>

theorem C9_toggle_applied_unchecked:
  assumes "TILE_SIZE cfg \<noteq> 0" and "ev inp = MOUSEBUTTONDOWN 1"
    and "x = fst (mouse_get_pos inp) div TILE_SIZE cfg"
    and "y = snd (mouse_get_pos inp) div TILE_SIZE cfg"
  shows "handle_event cfg inp st =
           Inr (st\<lparr>grid_positions :=
                  (if (x, y) \<in> grid_positions st then grid_positions st - {(x, y)}
                   else insert (x, y) (grid_positions st))\<rparr>)"
  using assms by (simp add: handle_event_left_click)

theorem C9_toggle_applied_unchecked_witness:
  "TILE_SIZE source_config \<noteq> 0 \<and> ev (left_click (-3, 7)) = MOUSEBUTTONDOWN 1
   \<and> -1 = fst (mouse_get_pos (left_click (-3, 7))) div TILE_SIZE source_config
   \<and> 1 = snd (mouse_get_pos (left_click (-3, 7))) div TILE_SIZE source_config
   \<and> handle_event source_config (left_click (-3, 7)) main_init
       = Inr (main_init\<lparr>grid_positions := {(-1, 1)}\<rparr>)"
proof -
  have a: "TILE_SIZE source_config \<noteq> 0" and b: "ev (left_click (-3, 7)) = MOUSEBUTTONDOWN 1"
    and c: "-1 = fst (mouse_get_pos (left_click (-3, 7))) div TILE_SIZE source_config"
    and d: "1 = snd (mouse_get_pos (left_click (-3, 7))) div TILE_SIZE source_config"
    by (simp_all add: source_config_def left_click_def)
  from C9_toggle_applied_unchecked [OF a b c d, of main_init] a b c d
  show ?thesis by (simp add: main_init_def)
qed

text \<open>
  C10. For every event that is not QUIT, not a KEYDOWN of the space, c, r or p key, and
  not a MOUSEBUTTONDOWN of button 1, \<open>handle_event\<close> returns the state unchanged: the
  live-cell set, the tick accumulator, the playing flag, the running flag and the
  generation counter are all as before.
\<close>

theorem C10_unrecognized_event_noop:
  assumes "ev inp \<noteq> QUIT"
    and "ev inp \<notin> {KEYDOWN K_SPACE, KEYDOWN K_c, KEYDOWN K_r, KEYDOWN K_p}"
    and "ev inp \<noteq> MOUSEBUTTONDOWN 1"
  shows "handle_event cfg inp st = Inr st"
  using assms by (auto simp: handle_event_def split: event.splits key.splits)

theorem C10_unrecognized_event_noop_witness:
  "ev (key_press (K_OTHER 97)) \<noteq> QUIT
   \<and> ev (key_press (K_OTHER 97)) \<notin> {KEYDOWN K_SPACE, KEYDOWN K_c, KEYDOWN K_r, KEYDOWN K_p}
   \<and> ev (key_press (K_OTHER 97)) \<noteq> MOUSEBUTTONDOWN 1
   \<and> handle_event source_config (key_press (K_OTHER 97)) main_init = Inr main_init"
proof -
  have a: "ev (key_press (K_OTHER 97)) \<noteq> QUIT"
    and b: "ev (key_press (K_OTHER 97))
              \<notin> {KEYDOWN K_SPACE, KEYDOWN K_c, KEYDOWN K_r, KEYDOWN K_p}"
    and c: "ev (key_press (K_OTHER 97)) \<noteq> MOUSEBUTTONDOWN 1"
    by (simp_all add: key_press_def)
  from C10_unrecognized_event_noop [OF a b c, of source_config main_init] a b c
  show ?thesis by simp
qed

end
